theory Spec2Isabelle
  imports Main
begin

section \<open>The environment of a RedisMutex\<close>

text \<open>
  The class \<open>RedisMutex\<close> talks to three collaborators: the Redis client it was
  constructed with (\<open>set\<close>, \<open>del\<close>, \<open>eval\<close>), the wall clock (\<open>Date.now()\<close>,
  \<open>setTimeout\<close>) and the token source \<open>uuidv4()\<close>. They are gathered in one
  record that every method takes and returns.

  \<^item> \<open>store\<close>: the key space of the Redis server. A record is a value together with
    the instant (in milliseconds) at which it expires, or with \<open>None\<close> when it was
    written without an expiry. Expired records are invisible to every command.
  \<^item> \<open>clock\<close>: the current time in milliseconds, what \<open>Date.now()\<close> reads.
  \<^item> \<open>lag\<close>, \<open>awaits\<close>: the time the \<open>n\<close>-th awaited operation takes beyond what it
    asks for (network round trip, timer slack); any function is allowed, so a
    statement about every world is a statement about every timing.
  \<^item> \<open>uuids\<close>, \<open>drawn\<close>: the \<open>n\<close>-th string that \<open>uuidv4()\<close> returns, and how many
    were drawn so far.

  Millisecond quantities are integers; on integers \<open>Math.floor(x / 2)\<close> is
  \<open>x div 2\<close>, which rounds towards minus infinity as \<open>Math.floor\<close> does.

  The server is not part of the repository. Its three commands behave as Redis
  documents them, each in one indivisible step, and they are total here: a
  failure of the connection itself is not part of the model, and a record
  written with an expiry that is not positive is simply never visible.
\<close>

record world =
  store :: "string \<rightharpoonup> (string \<times> int option)"
  clock :: int
  lag :: "nat \<Rightarrow> nat"
  awaits :: nat
  uuids :: "nat \<Rightarrow> string"
  drawn :: nat

text \<open>What a method of the mutex did, in order: the commands it sent to the
  client, the timers it waited on, and the invocation of the caller's work.\<close>

datatype event =
    Set string string int    \<comment> \<open>\<open>set(key, value, "PX", ttl, "NX")\<close>\<close>
  | Del string               \<comment> \<open>\<open>del(key)\<close>\<close>
  | Eval string string       \<comment> \<open>\<open>eval(script, 1, key, arg)\<close> with the release script\<close>
  | Timer int                \<comment> \<open>\<open>setTimeout(resolve, ms)\<close>\<close>
  | Run                      \<comment> \<open>\<open>run()\<close>\<close>

text \<open>Every awaited operation takes effect in the world it is issued in; then
  the time of its round trip passes.\<close>

definition await :: "world \<Rightarrow> world" where
  "await w = w\<lparr>clock := clock w + int (lag w (awaits w)), awaits := Suc (awaits w)\<rparr>"

definition redis_get :: "world \<Rightarrow> string \<Rightarrow> string option" where
  "redis_get w k =
     (case store w k of
        None \<Rightarrow> None
      | Some (v, None) \<Rightarrow> Some v
      | Some (v, Some expiry) \<Rightarrow> if clock w < expiry then Some v else None)"

text \<open>\<open>SET key value PX ttl NX\<close>: written only when no live record is there; the
  reply is \<open>"OK"\<close>, or \<open>null\<close> when nothing was written.\<close>

definition redis_set_px_nx :: "string \<Rightarrow> string \<Rightarrow> int \<Rightarrow> world \<Rightarrow> string option \<times> world" where
  "redis_set_px_nx k v px w =
     (if redis_get w k = None
      then (Some ''OK'', await (w\<lparr>store := (store w)(k \<mapsto> (v, Some (clock w + px)))\<rparr>))
      else (None, await w))"

text \<open>\<open>DEL key\<close>: the reply is the number of keys removed.\<close>

definition redis_del :: "string \<Rightarrow> world \<Rightarrow> int \<times> world" where
  "redis_del k w =
     (if redis_get w k = None then 0 else 1, await (w\<lparr>store := (store w)(k := None)\<rparr>))"

text \<open>
  The script that \<open>#releaseLock\<close> sends, run by the server in one step:
  \<^verbatim>\<open>if redis.call("get", KEYS[1]) == ARGV[1] then return redis.call("del", KEYS[1]) else return 0 end\<close>
  A missing key reads as \<open>false\<close> in the script, which equals no string.
\<close>

definition redis_eval_release :: "string \<Rightarrow> string \<Rightarrow> world \<Rightarrow> int \<times> world" where
  "redis_eval_release k arg w =
     (if redis_get w k = Some arg
      then redis_del k w
      else (0, await w))"

definition uuidv4 :: "world \<Rightarrow> string \<times> world" where
  "uuidv4 w = (uuids w (drawn w), w\<lparr>drawn := Suc (drawn w)\<rparr>)"

text \<open>\<open>await new Promise((resolve) => setTimeout(resolve, ms))\<close>: the timer
  fires once its delay has passed. Node takes a delay below 1 or above
  \<open>2147483647\<close> (the largest 32-bit signed integer) as a delay of 1 millisecond.\<close>

definition timer_delay :: "int \<Rightarrow> int" where
  "timer_delay ms = (if ms < 1 \<or> 2147483647 < ms then 1 else ms)"

definition sleep :: "int \<Rightarrow> world \<Rightarrow> world" where
  "sleep ms w = await (w\<lparr>clock := clock w + timer_delay ms\<rparr>)"

text \<open>JavaScript truthiness of a value of type \<open>string | null\<close>: \<open>null\<close> and the
  empty string are falsy.\<close>

fun truthy :: "string option \<Rightarrow> bool" where
  "truthy None = False"
| "truthy (Some s) = (s \<noteq> [])"

section \<open>RedisMutexAcquisitionError\<close>

datatype 'e failure =
    RedisMutexAcquisitionError (message: string) (lockName: string) (lockId: string)
  | Thrown 'e    \<comment> \<open>whatever the caller's work raised\<close>

definition new_RedisMutexAcquisitionError :: "string \<Rightarrow> string \<Rightarrow> 'e failure" where
  "new_RedisMutexAcquisitionError n i =
     RedisMutexAcquisitionError
       (''Failed to acquire redis mutex with name '' @ [CHR 0x27] @ n @ [CHR 0x27]
          @ '' (id: '' @ i @ '')'')
       n i"

section \<open>RedisMutex\<close>

record RedisMutex =
  name :: string
  id' :: string
  timeout :: int

record RedisOptimisticLockOptions =
  maxWaitTime :: int
  maxAttempts :: "int option"
  timeBetweenAttempts :: "int option"

text \<open>A JavaScript number that may be \<open>Infinity\<close>.\<close>

datatype number = Finite int | Infinity

definition getRedisKey :: "RedisMutex \<Rightarrow> string" where
  "getRedisKey m = ''lock:'' @ name m @ '':'' @ id' m"

definition forceResetLock :: "RedisMutex \<Rightarrow> world \<Rightarrow> world \<times> event list" where
  "forceResetLock m w =
     (let (_, w') = redis_del (getRedisKey m) w
      in (w', [Del (getRedisKey m)]))"

definition obtainLock :: "RedisMutex \<Rightarrow> world \<Rightarrow> string option \<times> world \<times> event list" where
  "obtainLock m w =
     (let lockKey = getRedisKey m;
          (lockerId, w1) = uuidv4 w;
          (result, w2) = redis_set_px_nx lockKey lockerId (timeout m) w1
      in (if \<not> truthy result then None else Some lockerId,
          w2, [Set lockKey lockerId (timeout m)]))"

definition releaseLock :: "RedisMutex \<Rightarrow> string \<Rightarrow> world \<Rightarrow> world \<times> event list" where
  "releaseLock m lockerId w =
     (let (_, w') = redis_eval_release (getRedisKey m) lockerId w
      in (w', [Eval (getRedisKey m) lockerId]))"

text \<open>The \<open>while (true)\<close> loop of \<open>#obtainLockOptimistically\<close>. Nothing in its
  text bounds it, so its result is optional: \<open>None\<close> is "never returns". (That it
  does return is proved below, from the passing of time.) \<open>acc\<close> collects the
  events of the iterations already done.\<close>

partial_function (option) obtainLockOptimistically_loop ::
  "RedisMutex \<Rightarrow> int \<Rightarrow> int \<Rightarrow> int \<Rightarrow> world \<Rightarrow> event list
     \<Rightarrow> (string option \<times> world \<times> event list) option" where
  "obtainLockOptimistically_loop m start maxWait spinTime w acc =
     (case obtainLock m w of (lockerId, w1, es) \<Rightarrow>
        if truthy lockerId then Some (lockerId, w1, acc @ es)
        else let elapsed = clock w1 - start in
          if elapsed > maxWait then Some (None, w1, acc @ es)
          else obtainLockOptimistically_loop m start maxWait spinTime
                 (sleep spinTime w1) (acc @ es @ [Timer spinTime]))"

text \<open>\<open>maxAttempts ??= Infinity\<close> is the only place where the source mentions
  \<open>maxAttempts\<close>; the value is bound and not read again.\<close>

definition obtainLockOptimistically ::
  "RedisMutex \<Rightarrow> RedisOptimisticLockOptions \<Rightarrow> world
     \<Rightarrow> (string option \<times> world \<times> event list) option" where
  "obtainLockOptimistically m options w =
     (let maxAttempts' = (case maxAttempts options of None \<Rightarrow> Infinity | Some n \<Rightarrow> Finite n);
          start = clock w;
          spinTime = (case timeBetweenAttempts options of
                        Some t \<Rightarrow> t
                      | None \<Rightarrow> max 10 (maxWaitTime options div 2))
      in obtainLockOptimistically_loop m start (maxWaitTime options) spinTime w [])"

text \<open>The caller's work is any function of the world that returns a value
  (\<open>Inr\<close>) or raises (\<open>Inl\<close>). \<open>try { return await run() } finally { release }\<close>
  runs the release on both exits and then passes the outcome of \<open>run\<close> on.
  Past the test \<open>!lockerId\<close> the token is a string that is not empty, which
  \<open>the\<close> reads.\<close>

definition withLock ::
  "RedisMutex \<Rightarrow> (world \<Rightarrow> ('e + 'a) \<times> world) \<Rightarrow> world
     \<Rightarrow> ('e failure + 'a) \<times> world \<times> event list" where
  "withLock m run w =
     (case obtainLock m w of (lockerId, w1, es) \<Rightarrow>
        if \<not> truthy lockerId
        then (Inl (new_RedisMutexAcquisitionError (name m) (id' m)), w1, es)
        else (case run w1 of (outcome, w2) \<Rightarrow>
               (case releaseLock m (the lockerId) w2 of (w3, es') \<Rightarrow>
                  (map_sum Thrown (\<lambda>v. v) outcome, w3, es @ [Run] @ es'))))"

definition withOptimisticLock ::
  "RedisMutex \<Rightarrow> (world \<Rightarrow> ('e + 'a) \<times> world) \<Rightarrow> RedisOptimisticLockOptions \<Rightarrow> world
     \<Rightarrow> (('e failure + 'a) \<times> world \<times> event list) option" where
  "withOptimisticLock m run options w =
     (case obtainLockOptimistically m options w of
        None \<Rightarrow> None
      | Some (lockerId, w1, es) \<Rightarrow>
          if \<not> truthy lockerId
          then Some (Inl (new_RedisMutexAcquisitionError (name m) (id' m)), w1, es)
          else (case run w1 of (outcome, w2) \<Rightarrow>
                 (case releaseLock m (the lockerId) w2 of (w3, es') \<Rightarrow>
                    Some (map_sum Thrown (\<lambda>v. v) outcome, w3, es @ [Run] @ es'))))"

section \<open>Reading a trace\<close>

text \<open>The tokens that the acquire primitive wrote, one per attempt, and the
  tokens that were handed to the release script, in the order of the calls.\<close>

fun attempts :: "event list \<Rightarrow> string list" where
  "attempts [] = []"
| "attempts (Set k v px # es) = v # attempts es"
| "attempts (e # es) = attempts es"

fun releases :: "event list \<Rightarrow> string list" where
  "releases [] = []"
| "releases (Eval k t # es) = t # releases es"
| "releases (e # es) = releases es"

text \<open>The trace of a polling loop that wrote the tokens \<open>ts\<close> at key \<open>k\<close> with
  expiry \<open>px\<close> and waited \<open>d\<close> milliseconds after each attempt but the last.\<close>

fun spin_trace :: "string \<Rightarrow> int \<Rightarrow> int \<Rightarrow> string list \<Rightarrow> event list" where
  "spin_trace k px d [] = []"
| "spin_trace k px d [t] = [Set k t px]"
| "spin_trace k px d (t # ts) = Set k t px # Timer d # spin_trace k px d ts"

text \<open>The world in which the polling loop makes its attempt number \<open>n\<close> (counted
  from 0), when every attempt before it failed with time left: \<open>n\<close> times an
  attempt followed by the timer.\<close>

definition retry_world :: "RedisMutex \<Rightarrow> int \<Rightarrow> nat \<Rightarrow> world \<Rightarrow> world" where
  "retry_world m spinTime n w = ((\<lambda>v. sleep spinTime (fst (snd (obtainLock m v)))) ^^ n) w"

section \<open>Concrete worlds\<close>

text \<open>A mutex for the resource \<open>job\<close>, a world in which its key is free, and a
  world in which another holder owns the key with a record that never expires.
  Every operation takes no extra time, and the \<open>n\<close>-th token is \<open>n + 1\<close> letters
  \<open>u\<close>.\<close>

definition job_mutex :: RedisMutex where
  "job_mutex = \<lparr>name = ''job'', id' = ''a'', timeout = 1000\<rparr>"

definition free_world :: world where
  "free_world =
     \<lparr>store = Map.empty, clock = 0, lag = (\<lambda>_. 0), awaits = 0,
      uuids = (\<lambda>n. replicate (Suc n) CHR ''u''), drawn = 0\<rparr>"

definition held_world :: world where
  "held_world = free_world\<lparr>store := [''lock:job:a'' \<mapsto> (''other'', None)]\<rparr>"

text \<open>Two pieces of work, each taking five milliseconds: one returns \<open>7\<close>, the
  other raises \<open>boom\<close>.\<close>

definition work_ok :: "world \<Rightarrow> (string + nat) \<times> world" where
  "work_ok w = (Inr 7, w\<lparr>clock := clock w + 5\<rparr>)"

definition work_raises :: "world \<Rightarrow> (string + nat) \<times> world" where
  "work_raises w = (Inl ''boom'', w\<lparr>clock := clock w + 5\<rparr>)"

section \<open>The primitives on the store\<close>

lemma attempts_append: "attempts (xs @ ys) = attempts xs @ attempts ys"
  by (induction xs rule: attempts.induct) simp_all

lemma releases_append: "releases (xs @ ys) = releases xs @ releases ys"
  by (induction xs rule: releases.induct) simp_all

lemma redis_get_cong: "store v = store w \<Longrightarrow> clock v = clock w \<Longrightarrow> redis_get v k = redis_get w k"
  by (simp add: redis_get_def split: option.splits prod.splits)

lemma redis_get_absent: "store w k = None \<Longrightarrow> redis_get w k = None"
  by (simp add: redis_get_def)

lemma redis_get_stored: "redis_get w k = Some v \<Longrightarrow> \<exists>x. store w k = Some (v, x)"
  by (auto simp: redis_get_def split: option.splits if_splits)

lemma store_await: "store (await w) = store w"
  by (simp add: await_def)

text \<open>Each method, with the client calls computed out.\<close>

lemma obtainLock_eq:
  "obtainLock m w =
     (let key = getRedisKey m; tok = uuids w (drawn w); w1 = w\<lparr>drawn := Suc (drawn w)\<rparr> in
      if redis_get w key = None
      then (Some tok, await (w1\<lparr>store := (store w)(key \<mapsto> (tok, Some (clock w + timeout m)))\<rparr>),
            [Set key tok (timeout m)])
      else (None, await w1, [Set key tok (timeout m)]))"
proof -
  have "redis_get (w\<lparr>drawn := Suc (drawn w)\<rparr>) (getRedisKey m) = redis_get w (getRedisKey m)"
    by (rule redis_get_cong) simp_all
  then show ?thesis
    by (simp add: obtainLock_def uuidv4_def redis_set_px_nx_def Let_def)
qed

lemma releaseLock_eq:
  "releaseLock m t w =
     (await (if redis_get w (getRedisKey m) = Some t
             then w\<lparr>store := (store w)(getRedisKey m := None)\<rparr> else w),
      [Eval (getRedisKey m) t])"
  by (simp add: releaseLock_def redis_eval_release_def redis_del_def)

lemma forceResetLock_eq:
  "forceResetLock m w =
     (await (w\<lparr>store := (store w)(getRedisKey m := None)\<rparr>), [Del (getRedisKey m)])"
  by (simp add: forceResetLock_def redis_del_def)

lemma obtainLock_cases:
  assumes "obtainLock m w = (r, w1, es)"
  shows "es = [Set (getRedisKey m) (uuids w (drawn w)) (timeout m)]"
    and "drawn w1 = Suc (drawn w)" and "uuids w1 = uuids w"
    and "r = None \<or> r = Some (uuids w (drawn w))"
    and "r \<noteq> None \<Longrightarrow>
           store w1 (getRedisKey m) = Some (uuids w (drawn w), Some (clock w + timeout m))"
  using assms by (auto simp: obtainLock_eq Let_def await_def split: if_splits)

lemma job_key: "getRedisKey job_mutex = ''lock:job:a''"
  by (simp add: getRedisKey_def job_mutex_def)

text \<open>
  Claim C8. For a mutex with name \<open>n\<close> and id \<open>i\<close> the key is the string
  \<open>lock:n:i\<close>; \<open>getRedisKey\<close> returns it; the one command that each of acquire,
  release and forced reset sends names this key, and none of them changes the
  record of any other key.
\<close>

theorem key_is_lock_name_id:
  "getRedisKey m = ''lock:'' @ name m @ '':'' @ id' m
   \<and> snd (snd (obtainLock m w))
       = [Set (''lock:'' @ name m @ '':'' @ id' m) (uuids w (drawn w)) (timeout m)]
   \<and> snd (releaseLock m t w) = [Eval (''lock:'' @ name m @ '':'' @ id' m) t]
   \<and> snd (forceResetLock m w) = [Del (''lock:'' @ name m @ '':'' @ id' m)]
   \<and> (\<forall>k. k \<noteq> ''lock:'' @ name m @ '':'' @ id' m \<longrightarrow>
         store (fst (snd (obtainLock m w))) k = store w k
       \<and> store (fst (releaseLock m t w)) k = store w k
       \<and> store (fst (forceResetLock m w)) k = store w k)"
proof -
  have k: "getRedisKey m = ''lock:'' @ name m @ '':'' @ id' m"
    by (simp add: getRedisKey_def)
  have "snd (snd (obtainLock m w)) = [Set (getRedisKey m) (uuids w (drawn w)) (timeout m)]"
    by (simp add: obtainLock_eq Let_def)
  moreover have "snd (releaseLock m t w) = [Eval (getRedisKey m) t]"
    by (simp add: releaseLock_eq)
  moreover have "snd (forceResetLock m w) = [Del (getRedisKey m)]"
    by (simp add: forceResetLock_eq)
  moreover have "store (fst (snd (obtainLock m w))) k = store w k" if "k \<noteq> getRedisKey m" for k
    using that by (simp add: obtainLock_eq Let_def store_await)
  moreover have "store (fst (releaseLock m t w)) k = store w k" if "k \<noteq> getRedisKey m" for k
    using that by (simp add: releaseLock_eq store_await)
  moreover have "store (fst (forceResetLock m w)) k = store w k" if "k \<noteq> getRedisKey m" for k
    using that by (simp add: forceResetLock_eq store_await)
  ultimately show ?thesis
    unfolding k by blast
qed

theorem key_is_lock_name_id_witness:
  "getRedisKey job_mutex = ''lock:job:a''
   \<and> ''lock:job:b'' \<noteq> ''lock:'' @ name job_mutex @ '':'' @ id' job_mutex
   \<and> store (fst (snd (obtainLock job_mutex
        (free_world\<lparr>store := [''lock:job:b'' \<mapsto> (''x'', None)]\<rparr>)))) ''lock:job:b''
       = Some (''x'', None)
   \<and> store (fst (forceResetLock job_mutex
        (free_world\<lparr>store := [''lock:job:b'' \<mapsto> (''x'', None)]\<rparr>))) ''lock:job:b''
       = Some (''x'', None)"
proof -
  have h: "''lock:job:b'' \<noteq> ''lock:'' @ name job_mutex @ '':'' @ id' job_mutex"
    by (simp add: job_mutex_def)
  show ?thesis
    using h key_is_lock_name_id
      [of job_mutex "free_world\<lparr>store := [''lock:job:b'' \<mapsto> (''x'', None)]\<rparr>" "''u''"]
    by (simp add: job_mutex_def)
qed

text \<open>
  Claim C9. \<open>forceResetLock\<close> sends one \<open>del\<close> of the key and compares nothing:
  in whatever state the store is, and whichever token the record holds, no
  record is left at the key afterwards.
\<close>

theorem forceResetLock_unconditional:
  "store (fst (forceResetLock m w)) (getRedisKey m) = None
   \<and> redis_get (fst (forceResetLock m w)) (getRedisKey m) = None
   \<and> snd (forceResetLock m w) = [Del (getRedisKey m)]"
  by (simp add: forceResetLock_eq store_await redis_get_absent)

text \<open>
  Claim C2. For every store and every token \<open>t\<close>, release removes the record at
  the key exactly when the value that the store holds there is \<open>t\<close>. When the
  value is another one, or no live record is there, the store is left as it
  was, so the record of another holder stays. Release has no failing branch:
  in each case it returns the world after its one \<open>eval\<close>.
\<close>

theorem releaseLock_compare_and_delete:
  "(redis_get w (getRedisKey m) = Some t \<longrightarrow>
      store (fst (releaseLock m t w)) = (store w)(getRedisKey m := None)
      \<and> redis_get (fst (releaseLock m t w)) (getRedisKey m) = None)
   \<and> (redis_get w (getRedisKey m) \<noteq> Some t \<longrightarrow> store (fst (releaseLock m t w)) = store w)
   \<and> ((store w (getRedisKey m) \<noteq> None \<and> store (fst (releaseLock m t w)) (getRedisKey m) = None)
        = (redis_get w (getRedisKey m) = Some t))
   \<and> snd (releaseLock m t w) = [Eval (getRedisKey m) t]"
  by (auto simp: releaseLock_eq store_await redis_get_absent dest: redis_get_stored)

theorem releaseLock_compare_and_delete_witness:
  "redis_get held_world (getRedisKey job_mutex) = Some ''other''
   \<and> store (fst (releaseLock job_mutex ''other'' held_world)) = Map.empty
   \<and> redis_get held_world (getRedisKey job_mutex) \<noteq> Some ''u''
   \<and> store (fst (releaseLock job_mutex ''u'' held_world)) = store held_world
   \<and> redis_get free_world (getRedisKey job_mutex) \<noteq> Some ''u''
   \<and> store (fst (releaseLock job_mutex ''u'' free_world)) = store free_world"
proof -
  have h1: "redis_get held_world (getRedisKey job_mutex) = Some ''other''"
    by (simp add: job_key redis_get_def held_world_def free_world_def)
  have h2: "redis_get held_world (getRedisKey job_mutex) \<noteq> Some ''u''"
    by (simp add: h1)
  have h3: "redis_get free_world (getRedisKey job_mutex) \<noteq> Some ''u''"
    by (simp add: redis_get_def free_world_def)
  have s: "store held_world = [''lock:job:a'' \<mapsto> (''other'', None)]"
    by (simp add: held_world_def)
  show ?thesis
    using h1 h2 h3
      releaseLock_compare_and_delete [of held_world job_mutex "''other''"]
      releaseLock_compare_and_delete [of held_world job_mutex "''u''"]
      releaseLock_compare_and_delete [of free_world job_mutex "''u''"]
    by (simp add: job_key s)
qed

section \<open>Concrete runs\<close>

text \<open>The methods evaluated on the concrete worlds, step by step from the
  definitions.\<close>

lemmas eval_defs =
  obtainLockOptimistically_def obtainLockOptimistically_loop.simps obtainLock_def uuidv4_def
  redis_set_px_nx_def redis_get_def await_def sleep_def timer_delay_def getRedisKey_def
  job_mutex_def
  held_world_def free_world_def Let_def

lemma free_attempt:
  "obtainLock job_mutex free_world =
     (Some ''u'',
      free_world\<lparr>store := [''lock:job:a'' \<mapsto> (''u'', Some 1000)], awaits := 1, drawn := 1\<rparr>,
      [Set ''lock:job:a'' ''u'' 1000])"
  by (simp add: eval_defs)

lemma held_attempt:
  "obtainLock job_mutex held_world =
     (None, held_world\<lparr>awaits := 1, drawn := 1\<rparr>, [Set ''lock:job:a'' ''u'' 1000])"
  by (simp add: eval_defs)

lemma held_poll_25_10:
  "obtainLockOptimistically job_mutex
     \<lparr>maxWaitTime = 25, maxAttempts = a, timeBetweenAttempts = Some 10\<rparr> held_world
   = Some (None, held_world\<lparr>clock := 30, awaits := 7, drawn := 4\<rparr>,
       [Set ''lock:job:a'' ''u'' 1000, Timer 10, Set ''lock:job:a'' ''uu'' 1000, Timer 10,
        Set ''lock:job:a'' ''uuu'' 1000, Timer 10, Set ''lock:job:a'' ''uuuu'' 1000])"
  by (simp add: eval_defs)

lemma held_poll_4_default:
  "obtainLockOptimistically job_mutex
     \<lparr>maxWaitTime = 4, maxAttempts = None, timeBetweenAttempts = None\<rparr> held_world
   = Some (None, held_world\<lparr>clock := 10, awaits := 3, drawn := 2\<rparr>,
       [Set ''lock:job:a'' ''u'' 1000, Timer 10, Set ''lock:job:a'' ''uu'' 1000])"
  by (simp add: eval_defs)

lemma held_poll_30_default:
  "obtainLockOptimistically job_mutex
     \<lparr>maxWaitTime = 30, maxAttempts = None, timeBetweenAttempts = None\<rparr> held_world
   = Some (None, held_world\<lparr>clock := 45, awaits := 7, drawn := 4\<rparr>,
       [Set ''lock:job:a'' ''u'' 1000, Timer 15, Set ''lock:job:a'' ''uu'' 1000, Timer 15,
        Set ''lock:job:a'' ''uuu'' 1000, Timer 15, Set ''lock:job:a'' ''uuuu'' 1000])"
  by (simp add: eval_defs)

lemma held_poll_negative:
  "obtainLockOptimistically job_mutex
     \<lparr>maxWaitTime = - 5, maxAttempts = None, timeBetweenAttempts = None\<rparr> held_world
   = Some (None, held_world\<lparr>awaits := 1, drawn := 1\<rparr>, [Set ''lock:job:a'' ''u'' 1000])"
  by (simp add: eval_defs)

lemma free_poll:
  "obtainLockOptimistically job_mutex
     \<lparr>maxWaitTime = mw, maxAttempts = a, timeBetweenAttempts = t\<rparr> free_world
   = Some (Some ''u'',
       free_world\<lparr>store := [''lock:job:a'' \<mapsto> (''u'', Some 1000)], awaits := 1, drawn := 1\<rparr>,
       [Set ''lock:job:a'' ''u'' 1000])"
  by (simp add: eval_defs)

text \<open>A record of another holder that expires at instant 15: the third attempt
  gets the lock.\<close>

lemma expiring_poll:
  "obtainLockOptimistically job_mutex
     \<lparr>maxWaitTime = 100, maxAttempts = None, timeBetweenAttempts = Some 10\<rparr>
     (free_world\<lparr>store := [''lock:job:a'' \<mapsto> (''other'', Some 15)]\<rparr>)
   = Some (Some ''uuu'',
       free_world\<lparr>store := [''lock:job:a'' \<mapsto> (''uuu'', Some 1020)], clock := 20,
                   awaits := 5, drawn := 3\<rparr>,
       [Set ''lock:job:a'' ''u'' 1000, Timer 10, Set ''lock:job:a'' ''uu'' 1000, Timer 10,
        Set ''lock:job:a'' ''uuu'' 1000])"
  by (simp add: eval_defs)

lemmas scoped_defs = withLock_def withOptimisticLock_def releaseLock_def redis_eval_release_def
  redis_del_def new_RedisMutexAcquisitionError_def work_ok_def work_raises_def

lemma free_withLock_ok:
  "withLock job_mutex work_ok free_world =
     (Inr 7, free_world\<lparr>clock := 5, awaits := 2, drawn := 1\<rparr>,
      [Set ''lock:job:a'' ''u'' 1000, Run, Eval ''lock:job:a'' ''u''])"
  by (simp add: scoped_defs eval_defs)

lemma free_withLock_raises:
  "withLock job_mutex work_raises free_world =
     (Inl (Thrown ''boom''), free_world\<lparr>clock := 5, awaits := 2, drawn := 1\<rparr>,
      [Set ''lock:job:a'' ''u'' 1000, Run, Eval ''lock:job:a'' ''u''])"
  by (simp add: scoped_defs eval_defs)

lemma held_withLock:
  "withLock job_mutex work_ok held_world =
     (Inl (RedisMutexAcquisitionError
             (''Failed to acquire redis mutex with name '' @ [CHR 0x27] @ ''job'' @ [CHR 0x27]
                @ '' (id: a)'') ''job'' ''a''),
      held_world\<lparr>awaits := 1, drawn := 1\<rparr>, [Set ''lock:job:a'' ''u'' 1000])"
  by (simp add: scoped_defs eval_defs)

lemma expiring_withOptimisticLock_ok:
  "withOptimisticLock job_mutex work_ok
     \<lparr>maxWaitTime = 100, maxAttempts = None, timeBetweenAttempts = Some 10\<rparr>
     (free_world\<lparr>store := [''lock:job:a'' \<mapsto> (''other'', Some 15)]\<rparr>)
   = Some (Inr 7, free_world\<lparr>clock := 25, awaits := 6, drawn := 3\<rparr>,
       [Set ''lock:job:a'' ''u'' 1000, Timer 10, Set ''lock:job:a'' ''uu'' 1000, Timer 10,
        Set ''lock:job:a'' ''uuu'' 1000, Run, Eval ''lock:job:a'' ''uuu''])"
  by (simp add: scoped_defs eval_defs)

lemma expiring_withOptimisticLock_raises:
  "withOptimisticLock job_mutex work_raises
     \<lparr>maxWaitTime = 100, maxAttempts = None, timeBetweenAttempts = Some 10\<rparr>
     (free_world\<lparr>store := [''lock:job:a'' \<mapsto> (''other'', Some 15)]\<rparr>)
   = Some (Inl (Thrown ''boom''), free_world\<lparr>clock := 25, awaits := 6, drawn := 3\<rparr>,
       [Set ''lock:job:a'' ''u'' 1000, Timer 10, Set ''lock:job:a'' ''uu'' 1000, Timer 10,
        Set ''lock:job:a'' ''uuu'' 1000, Run, Eval ''lock:job:a'' ''uuu''])"
  by (simp add: scoped_defs eval_defs)

lemma held_withOptimisticLock:
  "withOptimisticLock job_mutex work_ok
     \<lparr>maxWaitTime = 4, maxAttempts = None, timeBetweenAttempts = None\<rparr> held_world
   = Some (Inl (RedisMutexAcquisitionError
             (''Failed to acquire redis mutex with name '' @ [CHR 0x27] @ ''job'' @ [CHR 0x27]
                @ '' (id: a)'') ''job'' ''a''),
       held_world\<lparr>clock := 10, awaits := 3, drawn := 2\<rparr>,
       [Set ''lock:job:a'' ''u'' 1000, Timer 10, Set ''lock:job:a'' ''uu'' 1000])"
  by (simp add: scoped_defs eval_defs)

section \<open>The polling loop\<close>

lemma spin_trace_Cons:
  "ts \<noteq> [] \<Longrightarrow> spin_trace k px d (t # ts) = Set k t px # Timer d # spin_trace k px d ts"
  by (cases ts) simp_all

lemma attempts_spin_trace: "attempts (spin_trace k px d ts) = ts"
  by (induction k px d ts rule: spin_trace.induct) simp_all

lemma releases_spin_trace: "releases (spin_trace k px d ts) = []"
  by (induction k px d ts rule: spin_trace.induct) simp_all

lemma set_spin_trace:
  "e \<in> set (spin_trace k px d ts) \<Longrightarrow> e = Timer d \<or> (\<exists>t \<in> set ts. e = Set k t px)"
  by (induction k px d ts rule: spin_trace.induct) auto

lemma Timer_in_spin_trace: "Timer x \<in> set (spin_trace k px d ts) \<Longrightarrow> x = d"
  using set_spin_trace[of "Timer x" k px d ts] by auto

lemma hd_spin_trace: "ts \<noteq> [] \<Longrightarrow> hd (spin_trace k px d ts) = Set k (hd ts) px"
  by (induction k px d ts rule: spin_trace.induct) simp_all

lemma spin_trace_Nil: "spin_trace k px d ts = [] \<longleftrightarrow> ts = []"
  by (induction k px d ts rule: spin_trace.induct) simp_all

lemma last_spin_trace: "ts \<noteq> [] \<Longrightarrow> last (spin_trace k px d ts) = Set k (last ts) px"
  by (induction k px d ts rule: spin_trace.induct) (simp_all add: spin_trace_Nil)

lemma loop_result:
  assumes "obtainLockOptimistically_loop m start maxWait spinTime w acc = Some (r, w', tr)"
  shows "drawn w < drawn w' \<and> uuids w' = uuids w
         \<and> tr = acc @ spin_trace (getRedisKey m) (timeout m) spinTime (map (uuids w) [drawn w ..< drawn w'])
         \<and> (case r of
               None \<Rightarrow> maxWait < clock w' - start
             | Some tok \<Rightarrow> tok \<noteq> [] \<and> tok = uuids w (drawn w' - 1)
                  \<and> (\<exists>x. store w' (getRedisKey m) = Some (tok, x)))"
  using assms
proof (induction m start maxWait spinTime w acc "(r, w', tr)" arbitrary: r w' tr
        rule: obtainLockOptimistically_loop.raw_induct[rotated 1, consumes 1])
  case (1 loop m start maxWait spinTime w acc)
  obtain l w1 es where ol: "obtainLock m w = (l, w1, es)"
    by (cases "obtainLock m w") auto
  note oc = obtainLock_cases[OF ol]
  show ?case
  proof (cases "truthy l \<or> maxWait < clock w1 - start")
    case True
    with 1(2) ol have e: "w' = w1" "tr = acc @ es" "r = (if truthy l then l else None)"
      "\<not> truthy l \<Longrightarrow> maxWait < clock w' - start"
      by (auto simp: Let_def split: if_splits)
    have "[drawn w ..< drawn w1] = [drawn w]"
      using oc(2) by (simp add: upt_rec)
    moreover have "case r of None \<Rightarrow> maxWait < clock w' - start
        | Some tok \<Rightarrow> tok \<noteq> [] \<and> tok = uuids w (drawn w' - 1)
             \<and> (\<exists>x. store w' (getRedisKey m) = Some (tok, x))"
      using e oc(2,4,5) by (cases l) auto
    ultimately show ?thesis
      using e oc(1,2,3) by simp
  next
    case False
    let ?v = "sleep spinTime w1"
    from False 1(2) ol have
      "loop m start maxWait spinTime ?v (acc @ es @ [Timer spinTime]) = Some (r, w', tr)"
      by (auto simp: Let_def split: if_splits)
    note ih = 1(1)[OF this]
    have s: "drawn ?v = Suc (drawn w)" "uuids ?v = uuids w"
      using oc by (simp_all add: sleep_def await_def)
    have lt: "Suc (drawn w) < drawn w'"
      using ih s by simp
    then have u: "[drawn w ..< drawn w'] = drawn w # [Suc (drawn w) ..< drawn w']"
      and ne: "[Suc (drawn w) ..< drawn w'] \<noteq> []"
      by (simp_all add: upt_rec[of "drawn w"])
    have "tr = acc @ spin_trace (getRedisKey m) (timeout m) spinTime (map (uuids w) [drawn w ..< drawn w'])"
      using ih s oc(1) ne unfolding u by (simp add: spin_trace_Cons)
    moreover have "case r of None \<Rightarrow> maxWait < clock w' - start
        | Some tok \<Rightarrow> tok \<noteq> [] \<and> tok = uuids w (drawn w' - 1)
             \<and> (\<exists>x. store w' (getRedisKey m) = Some (tok, x))"
      using ih s by (cases r) simp_all
    ultimately show ?thesis
      using ih s lt by simp
  qed
qed

lemma obtainLockOptimistically_result:
  assumes "obtainLockOptimistically m options w = Some (r, w', tr)"
  shows "drawn w < drawn w'" and "uuids w' = uuids w"
    and "tr = spin_trace (getRedisKey m) (timeout m)
                (case timeBetweenAttempts options of Some t \<Rightarrow> t
                 | None \<Rightarrow> max 10 (maxWaitTime options div 2))
                (map (uuids w) [drawn w ..< drawn w'])"
    and "r = None \<Longrightarrow> maxWaitTime options < clock w' - clock w"
    and "r = Some tok \<Longrightarrow> tok \<noteq> [] \<and> tok = uuids w (drawn w' - 1)
                  \<and> (\<exists>x. store w' (getRedisKey m) = Some (tok, x))"
  using loop_result[of m "clock w" "maxWaitTime options" _ w "[]" r w' tr] assms
  by (simp_all add: obtainLockOptimistically_def Let_def)

lemma obtainLockOptimistically_unfold:
  "obtainLockOptimistically m options w =
     (case obtainLock m w of (lockerId, w1, es) \<Rightarrow>
        if truthy lockerId then Some (lockerId, w1, es)
        else if maxWaitTime options < clock w1 - clock w then Some (None, w1, es)
        else obtainLockOptimistically_loop m (clock w) (maxWaitTime options)
               (case timeBetweenAttempts options of Some t \<Rightarrow> t
                | None \<Rightarrow> max 10 (maxWaitTime options div 2))
               (sleep (case timeBetweenAttempts options of Some t \<Rightarrow> t
                       | None \<Rightarrow> max 10 (maxWaitTime options div 2)) w1)
               (es @ [Timer (case timeBetweenAttempts options of Some t \<Rightarrow> t
                             | None \<Rightarrow> max 10 (maxWaitTime options div 2))]))"
  unfolding obtainLockOptimistically_def Let_def
  by (subst obtainLockOptimistically_loop.simps) (simp add: Let_def split: prod.splits)

text \<open>Time never runs backwards and every timer takes at least one millisecond,
  so the time since the start grows with each round and the loop returns:
  whatever the store holds, whatever the options are and however long each
  operation takes.\<close>

lemma clock_await: "clock w \<le> clock (await w)"
  by (simp add: await_def)

lemma clock_obtainLock: "obtainLock m w = (r, w1, es) \<Longrightarrow> clock w \<le> clock w1"
  by (auto simp: obtainLock_eq Let_def await_def split: if_splits)

lemma clock_sleep: "clock w + 1 \<le> clock (sleep ms w)"
  by (simp add: sleep_def timer_delay_def await_def)

lemma loop_returns:
  "obtainLockOptimistically_loop m start maxWait spinTime w acc \<noteq> None"
proof (induction "nat (maxWait - (clock w - start) + 1)" arbitrary: w acc rule: less_induct)
  case less
  obtain l w1 es where ol: "obtainLock m w = (l, w1, es)"
    by (cases "obtainLock m w") auto
  note c1 = clock_obtainLock[OF ol]
  show ?case
  proof (cases "truthy l \<or> maxWait < clock w1 - start")
    case True
    then show ?thesis
      by (subst obtainLockOptimistically_loop.simps) (auto simp: ol Let_def)
  next
    case False
    let ?v = "sleep spinTime w1"
    have "clock w1 + 1 \<le> clock ?v"
      by (rule clock_sleep)
    with c1 False
    have "nat (maxWait - (clock ?v - start) + 1) < nat (maxWait - (clock w - start) + 1)"
      by simp
    from less[OF this] have
      "obtainLockOptimistically_loop m start maxWait spinTime ?v (acc @ es @ [Timer spinTime]) \<noteq> None" .
    with False show ?thesis
      by (subst obtainLockOptimistically_loop.simps) (auto simp: ol Let_def)
  qed
qed

lemma obtainLockOptimistically_returns: "obtainLockOptimistically m options w \<noteq> None"
  unfolding obtainLockOptimistically_def Let_def by (rule loop_returns)

text \<open>The loop round by round: as long as the attempts fail with time left, the
  loop is where \<open>retry_world\<close> says, and the first attempt that succeeds, or
  fails with the budget exceeded, ends it.\<close>

lemma retry_world_0: "retry_world m sp 0 w = w"
  by (simp add: retry_world_def)

lemma retry_world_Suc:
  "retry_world m sp (Suc n) w = sleep sp (fst (snd (obtainLock m (retry_world m sp n w))))"
  by (simp add: retry_world_def)

lemma retry_world_tokens:
  "drawn (retry_world m sp n w) = drawn w + n \<and> uuids (retry_world m sp n w) = uuids w"
proof (induction n)
  case 0
  show ?case by (simp add: retry_world_0)
next
  case (Suc n)
  obtain l w1 es where ol: "obtainLock m (retry_world m sp n w) = (l, w1, es)"
    by (cases "obtainLock m (retry_world m sp n w)") auto
  from obtainLock_cases(2,3)[OF ol] Suc show ?case
    by (simp add: retry_world_Suc ol sleep_def await_def)
qed

lemma loop_rounds:
  assumes "\<forall>k<n. \<not> truthy (fst (obtainLock m (retry_world m sp k w)))
              \<and> clock (fst (snd (obtainLock m (retry_world m sp k w)))) - start \<le> maxWait"
  shows "\<exists>acc'. obtainLockOptimistically_loop m start maxWait sp w acc
               = obtainLockOptimistically_loop m start maxWait sp (retry_world m sp n w) acc'"
  using assms
proof (induction n)
  case 0
  show ?case by (auto simp: retry_world_0)
next
  case (Suc n)
  then obtain acc' where a: "obtainLockOptimistically_loop m start maxWait sp w acc
      = obtainLockOptimistically_loop m start maxWait sp (retry_world m sp n w) acc'"
    by auto
  obtain l w1 es where ol: "obtainLock m (retry_world m sp n w) = (l, w1, es)"
    by (cases "obtainLock m (retry_world m sp n w)") auto
  from Suc.prems ol have f: "\<not> truthy l" "clock w1 - start \<le> maxWait"
    by (auto dest: spec[of _ n])
  have "obtainLockOptimistically_loop m start maxWait sp (retry_world m sp n w) acc'
      = obtainLockOptimistically_loop m start maxWait sp (retry_world m sp (Suc n) w)
          (acc' @ es @ [Timer sp])"
    using f by (subst obtainLockOptimistically_loop.simps) (simp add: ol Let_def retry_world_Suc)
  with a show ?case by auto
qed

lemma obtainLockOptimistically_round:
  assumes fails: "\<forall>k<n. \<not> truthy (fst (obtainLock m (retry_world m sp k w)))
              \<and> clock (fst (snd (obtainLock m (retry_world m sp k w)))) - clock w
                  \<le> maxWaitTime options"
    and sp: "sp = (case timeBetweenAttempts options of Some t \<Rightarrow> t
                   | None \<Rightarrow> max 10 (maxWaitTime options div 2))"
    and ol: "obtainLock m (retry_world m sp n w) = (lockerId, w1, es)"
    and stop: "truthy lockerId \<or> maxWaitTime options < clock w1 - clock w"
  shows "obtainLockOptimistically m options w =
           Some (if truthy lockerId then lockerId else None, w1,
                 spin_trace (getRedisKey m) (timeout m) sp
                   (map (uuids w) [drawn w ..< drawn w + Suc n]))"
proof -
  from loop_rounds[OF fails, of "[]"] obtain acc' where
    a: "obtainLockOptimistically_loop m (clock w) (maxWaitTime options) sp w []
      = obtainLockOptimistically_loop m (clock w) (maxWaitTime options) sp (retry_world m sp n w) acc'"
    by blast
  have "obtainLockOptimistically_loop m (clock w) (maxWaitTime options) sp (retry_world m sp n w) acc'
      = Some (if truthy lockerId then lockerId else None, w1, acc' @ es)"
    using stop by (subst obtainLockOptimistically_loop.simps) (auto simp: ol Let_def)
  with a have r: "obtainLockOptimistically m options w
      = Some (if truthy lockerId then lockerId else None, w1, acc' @ es)"
    by (simp add: obtainLockOptimistically_def Let_def sp)
  have "drawn w1 = drawn w + Suc n"
    using obtainLock_cases(2)[OF ol] retry_world_tokens[of m sp n w] by simp
  with obtainLockOptimistically_result(3)[OF r] r show ?thesis
    by (simp add: sp)
qed

lemma held_second_attempt:
  "obtainLock job_mutex (retry_world job_mutex 10 1 held_world) =
     (None, held_world\<lparr>clock := 10, awaits := 3, drawn := 2\<rparr>, [Set ''lock:job:a'' ''uu'' 1000])"
  by (simp add: retry_world_def eval_defs)

lemma expiring_third_attempt:
  "obtainLock job_mutex
     (retry_world job_mutex 10 2 (free_world\<lparr>store := [''lock:job:a'' \<mapsto> (''other'', Some 15)]\<rparr>))
   = (Some ''uuu'',
      free_world\<lparr>store := [''lock:job:a'' \<mapsto> (''uuu'', Some 1020)], clock := 20,
                  awaits := 5, drawn := 3\<rparr>,
      [Set ''lock:job:a'' ''uuu'' 1000])"
  by (simp add: retry_world_def eval_defs numeral_2_eq_2)

lemma job_timeout: "timeout job_mutex = 1000"
  by (simp add: job_mutex_def)

lemma concrete_tokens:
  "drawn free_world = 0" "uuids free_world n = replicate (Suc n) CHR ''u''"
  "drawn held_world = 0" "uuids held_world n = replicate (Suc n) CHR ''u''"
  by (simp_all add: held_world_def free_world_def)

text \<open>The result of the polling does not depend on \<open>maxAttempts\<close>.\<close>

lemma maxAttempts_never_read:
  "obtainLockOptimistically m (options\<lparr>maxAttempts := a\<rparr>) w = obtainLockOptimistically m options w"
  by (cases "timeBetweenAttempts options") (simp_all add: obtainLockOptimistically_def Let_def)

text \<open>
  Claim C1. With \<open>maxAttempts\<close> set to \<open>n\<close> the polling loop is said to stop after
  \<open>n\<close> attempts. The loop never reads \<open>maxAttempts\<close>: with \<open>maxAttempts = 1\<close>, a
  budget of 25 ms, 10 ms between attempts and a key that stays held, it calls the
  acquire primitive four times (at 0, 10, 20 and 30 ms) before it reports the
  failure.
\<close>

theorem maxAttempts_one_four_attempts:
  "obtainLockOptimistically job_mutex
     \<lparr>maxWaitTime = 25, maxAttempts = Some 1, timeBetweenAttempts = Some 10\<rparr> held_world
   = Some (None, held_world\<lparr>clock := 30, awaits := 7, drawn := 4\<rparr>,
       [Set ''lock:job:a'' ''u'' 1000, Timer 10, Set ''lock:job:a'' ''uu'' 1000, Timer 10,
        Set ''lock:job:a'' ''uuu'' 1000, Timer 10, Set ''lock:job:a'' ''uuuu'' 1000])
   \<and> attempts [Set ''lock:job:a'' ''u'' 1000, Timer 10, Set ''lock:job:a'' ''uu'' 1000, Timer 10,
        Set ''lock:job:a'' ''uuu'' 1000, Timer 10, Set ''lock:job:a'' ''uuuu'' 1000]
       = [''u'', ''uu'', ''uuu'', ''uuuu'']"
  by (simp add: held_poll_25_10)

text \<open>
  Claim C5. The loop attempts the acquisition before it looks at the clock. A
  successful attempt returns its token at once. After a failed attempt the time
  since the start is compared with \<open>maxWaitTime\<close>: when it is strictly greater the
  loop returns the failure value, otherwise it sleeps and goes round again. So
  whatever \<open>maxWaitTime\<close> is, zero and negative values included, at least one
  attempt is made.

  The statement covers every round. Let attempt number \<open>n\<close> (from 0) be made in
  \<open>retry_world m spinTime n w\<close>, that is after \<open>n\<close> attempts each followed by the
  timer. If all attempts before it failed with the elapsed time at most
  \<open>maxWaitTime\<close>, then a success of attempt \<open>n\<close> is the result of the call, and a
  failure with the elapsed time strictly greater than \<open>maxWaitTime\<close> makes the
  call return the failure value; in both cases \<open>n + 1\<close> attempts and \<open>n\<close> timers
  were made. The call always returns, its first event is the conditional write,
  and it reports the failure only with the budget strictly exceeded.
\<close>

theorem attempt_before_deadline_check:
  assumes "spinTime = (case timeBetweenAttempts options of Some t \<Rightarrow> t
                       | None \<Rightarrow> max 10 (maxWaitTime options div 2))"
  shows
  "(\<forall>lockerId w1 es. obtainLock m w = (lockerId, w1, es) \<longrightarrow>
      (truthy lockerId \<longrightarrow> obtainLockOptimistically m options w = Some (lockerId, w1, es))
    \<and> (\<not> truthy lockerId \<and> maxWaitTime options < clock w1 - clock w \<longrightarrow>
          obtainLockOptimistically m options w = Some (None, w1, es)))
   \<and> (\<forall>n lockerId w1 es.
        (\<forall>k<n. \<not> truthy (fst (obtainLock m (retry_world m spinTime k w)))
               \<and> clock (fst (snd (obtainLock m (retry_world m spinTime k w)))) - clock w
                   \<le> maxWaitTime options)
        \<and> obtainLock m (retry_world m spinTime n w) = (lockerId, w1, es) \<longrightarrow>
          (truthy lockerId \<longrightarrow>
             obtainLockOptimistically m options w =
               Some (lockerId, w1,
                     spin_trace (getRedisKey m) (timeout m) spinTime
                       (map (uuids w) [drawn w ..< drawn w + Suc n])))
        \<and> (\<not> truthy lockerId \<and> maxWaitTime options < clock w1 - clock w \<longrightarrow>
             obtainLockOptimistically m options w =
               Some (None, w1,
                     spin_trace (getRedisKey m) (timeout m) spinTime
                       (map (uuids w) [drawn w ..< drawn w + Suc n]))))
   \<and> obtainLockOptimistically m options w \<noteq> None
   \<and> (\<forall>r w' tr. obtainLockOptimistically m options w = Some (r, w', tr) \<longrightarrow>
        attempts tr \<noteq> []
      \<and> hd tr = Set (getRedisKey m) (uuids w (drawn w)) (timeout m)
      \<and> (r = None \<longrightarrow> maxWaitTime options < clock w' - clock w))"
proof (intro conjI allI impI; (elim conjE)?)
  fix lockerId w1 es
  assume "obtainLock m w = (lockerId, w1, es)" "truthy lockerId"
  then show "obtainLockOptimistically m options w = Some (lockerId, w1, es)"
    by (simp add: obtainLockOptimistically_unfold)
next
  fix lockerId w1 es
  assume "obtainLock m w = (lockerId, w1, es)" "\<not> truthy lockerId"
    "maxWaitTime options < clock w1 - clock w"
  then show "obtainLockOptimistically m options w = Some (None, w1, es)"
    by (simp add: obtainLockOptimistically_unfold)
next
  fix n lockerId w1 es
  assume "\<forall>k<n. \<not> truthy (fst (obtainLock m (retry_world m spinTime k w)))
               \<and> clock (fst (snd (obtainLock m (retry_world m spinTime k w)))) - clock w
                   \<le> maxWaitTime options"
    "obtainLock m (retry_world m spinTime n w) = (lockerId, w1, es)" "truthy lockerId"
  from obtainLockOptimistically_round[OF this(1) assms this(2)] this(3)
  show "obtainLockOptimistically m options w =
               Some (lockerId, w1,
                     spin_trace (getRedisKey m) (timeout m) spinTime
                       (map (uuids w) [drawn w ..< drawn w + Suc n]))"
    by simp
next
  fix n lockerId w1 es
  assume "\<forall>k<n. \<not> truthy (fst (obtainLock m (retry_world m spinTime k w)))
               \<and> clock (fst (snd (obtainLock m (retry_world m spinTime k w)))) - clock w
                   \<le> maxWaitTime options"
    "obtainLock m (retry_world m spinTime n w) = (lockerId, w1, es)" "\<not> truthy lockerId"
    "maxWaitTime options < clock w1 - clock w"
  from obtainLockOptimistically_round[OF this(1) assms this(2)] this(3,4)
  show "obtainLockOptimistically m options w =
               Some (None, w1,
                     spin_trace (getRedisKey m) (timeout m) spinTime
                       (map (uuids w) [drawn w ..< drawn w + Suc n]))"
    by simp
next
  show "obtainLockOptimistically m options w \<noteq> None"
    by (rule obtainLockOptimistically_returns)
next
  fix r w' tr
  assume r: "obtainLockOptimistically m options w = Some (r, w', tr)"
  note f = obtainLockOptimistically_result[OF r]
  have ne: "map (uuids w) [drawn w ..< drawn w'] \<noteq> []"
    using f(1) by simp
  have "hd (map (uuids w) [drawn w ..< drawn w']) = uuids w (drawn w)"
    using f(1) by (simp add: upt_rec)
  then show "hd tr = Set (getRedisKey m) (uuids w (drawn w)) (timeout m)"
    using hd_spin_trace[OF ne] f(3) by simp
  show "attempts tr \<noteq> []"
    using ne f(3) by (simp add: attempts_spin_trace)
  show "maxWaitTime options < clock w' - clock w" if "r = None"
    using f(4) that by simp
qed

theorem attempt_before_deadline_check_witness:
  "obtainLock job_mutex free_world =
     (Some ''u'',
      free_world\<lparr>store := [''lock:job:a'' \<mapsto> (''u'', Some 1000)], awaits := 1, drawn := 1\<rparr>,
      [Set ''lock:job:a'' ''u'' 1000])
   \<and> truthy (Some ''u'')
   \<and> obtainLockOptimistically job_mutex
        \<lparr>maxWaitTime = - 5, maxAttempts = None, timeBetweenAttempts = None\<rparr> free_world
      = Some (Some ''u'',
          free_world\<lparr>store := [''lock:job:a'' \<mapsto> (''u'', Some 1000)], awaits := 1, drawn := 1\<rparr>,
          [Set ''lock:job:a'' ''u'' 1000])
   \<and> obtainLock job_mutex held_world =
       (None, held_world\<lparr>awaits := 1, drawn := 1\<rparr>, [Set ''lock:job:a'' ''u'' 1000])
   \<and> \<not> truthy None
   \<and> maxWaitTime \<lparr>maxWaitTime = - 5, maxAttempts = None, timeBetweenAttempts = None\<rparr>
       < clock (held_world\<lparr>awaits := 1, drawn := 1\<rparr>) - clock held_world
   \<and> obtainLockOptimistically job_mutex
        \<lparr>maxWaitTime = - 5, maxAttempts = None, timeBetweenAttempts = None\<rparr> held_world
      = Some (None, held_world\<lparr>awaits := 1, drawn := 1\<rparr>, [Set ''lock:job:a'' ''u'' 1000])
   \<and> clock (fst (snd (obtainLock job_mutex (retry_world job_mutex 10 0 held_world))))
         - clock held_world
       \<le> maxWaitTime \<lparr>maxWaitTime = 0, maxAttempts = None, timeBetweenAttempts = Some 10\<rparr>
   \<and> obtainLock job_mutex (retry_world job_mutex 10 1 held_world) =
       (None, held_world\<lparr>clock := 10, awaits := 3, drawn := 2\<rparr>,
        [Set ''lock:job:a'' ''uu'' 1000])
   \<and> maxWaitTime \<lparr>maxWaitTime = 0, maxAttempts = None, timeBetweenAttempts = Some 10\<rparr>
       < clock (held_world\<lparr>clock := 10, awaits := 3, drawn := 2\<rparr>) - clock held_world
   \<and> obtainLockOptimistically job_mutex
        \<lparr>maxWaitTime = 0, maxAttempts = None, timeBetweenAttempts = Some 10\<rparr> held_world
      = Some (None, held_world\<lparr>clock := 10, awaits := 3, drawn := 2\<rparr>,
          [Set ''lock:job:a'' ''u'' 1000, Timer 10, Set ''lock:job:a'' ''uu'' 1000])
   \<and> obtainLock job_mutex
        (retry_world job_mutex 10 2
           (free_world\<lparr>store := [''lock:job:a'' \<mapsto> (''other'', Some 15)]\<rparr>))
      = (Some ''uuu'',
         free_world\<lparr>store := [''lock:job:a'' \<mapsto> (''uuu'', Some 1020)], clock := 20,
                     awaits := 5, drawn := 3\<rparr>,
         [Set ''lock:job:a'' ''uuu'' 1000])
   \<and> obtainLockOptimistically job_mutex
        \<lparr>maxWaitTime = 100, maxAttempts = None, timeBetweenAttempts = Some 10\<rparr>
        (free_world\<lparr>store := [''lock:job:a'' \<mapsto> (''other'', Some 15)]\<rparr>)
      = Some (Some ''uuu'',
          free_world\<lparr>store := [''lock:job:a'' \<mapsto> (''uuu'', Some 1020)], clock := 20,
                      awaits := 5, drawn := 3\<rparr>,
          [Set ''lock:job:a'' ''u'' 1000, Timer 10, Set ''lock:job:a'' ''uu'' 1000, Timer 10,
           Set ''lock:job:a'' ''uuu'' 1000])"
proof -
  let ?neg = "\<lparr>maxWaitTime = - 5, maxAttempts = None, timeBetweenAttempts = None\<rparr>"
  let ?zero = "\<lparr>maxWaitTime = 0, maxAttempts = None, timeBetweenAttempts = Some 10\<rparr>"
  let ?wait = "\<lparr>maxWaitTime = 100, maxAttempts = None, timeBetweenAttempts = Some 10\<rparr>"
  let ?expiring = "free_world\<lparr>store := [''lock:job:a'' \<mapsto> (''other'', Some 15)]\<rparr>"
  have s_neg: "(10::int) = (case timeBetweenAttempts ?neg of Some t \<Rightarrow> t
                            | None \<Rightarrow> max 10 (maxWaitTime ?neg div 2))"
    and s_zero: "(10::int) = (case timeBetweenAttempts ?zero of Some t \<Rightarrow> t
                            | None \<Rightarrow> max 10 (maxWaitTime ?zero div 2))"
    and s_wait: "(10::int) = (case timeBetweenAttempts ?wait of Some t \<Rightarrow> t
                            | None \<Rightarrow> max 10 (maxWaitTime ?wait div 2))"
    by simp_all
  have tr: "truthy (Some ''u'')" and fa: "\<not> truthy None"
    by simp_all
  have late: "maxWaitTime ?neg < clock (held_world\<lparr>awaits := 1, drawn := 1\<rparr>) - clock held_world"
    by (simp add: held_world_def free_world_def)
  \<comment> \<open>success at once, whatever the budget\<close>
  note free = attempt_before_deadline_check [OF s_neg, where m = job_mutex and w = free_world,
      THEN conjunct1, rule_format, OF free_attempt, THEN conjunct1, rule_format, OF tr]
  \<comment> \<open>one failed attempt with a negative budget\<close>
  note neg = attempt_before_deadline_check [OF s_neg, where m = job_mutex and w = held_world,
      THEN conjunct1, rule_format, OF held_attempt, THEN conjunct2, rule_format,
      OF conjI [OF fa late]]
  \<comment> \<open>a failed attempt within the budget, the timer, a failed attempt beyond the budget\<close>
  have first: "clock (fst (snd (obtainLock job_mutex (retry_world job_mutex 10 0 held_world))))
         - clock held_world \<le> maxWaitTime ?zero"
    by (simp add: retry_world_def held_attempt)
  have before: "\<forall>k<1. \<not> truthy (fst (obtainLock job_mutex (retry_world job_mutex 10 k held_world)))
      \<and> clock (fst (snd (obtainLock job_mutex (retry_world job_mutex 10 k held_world))))
           - clock held_world \<le> maxWaitTime ?zero"
    using first by (simp add: retry_world_def held_attempt)
  have late2: "maxWaitTime ?zero
      < clock (held_world\<lparr>clock := 10, awaits := 3, drawn := 2\<rparr>) - clock held_world"
    by (simp add: held_world_def free_world_def)
  note zero = attempt_before_deadline_check [OF s_zero, where m = job_mutex and w = held_world,
      THEN conjunct2, THEN conjunct1, rule_format, OF conjI [OF before held_second_attempt],
      THEN conjunct2, rule_format, OF conjI [OF fa late2]]
  have zero': "obtainLockOptimistically job_mutex ?zero held_world
      = Some (None, held_world\<lparr>clock := 10, awaits := 3, drawn := 2\<rparr>,
          [Set ''lock:job:a'' ''u'' 1000, Timer 10, Set ''lock:job:a'' ''uu'' 1000])"
    using zero by (simp add: job_key job_timeout concrete_tokens)
  \<comment> \<open>two failed attempts within the budget, then success\<close>
  have before2: "\<forall>k<2. \<not> truthy (fst (obtainLock job_mutex (retry_world job_mutex 10 k ?expiring)))
      \<and> clock (fst (snd (obtainLock job_mutex (retry_world job_mutex 10 k ?expiring))))
           - clock ?expiring \<le> maxWaitTime ?wait"
    by (simp add: less_Suc_eq numeral_2_eq_2 all_conj_distrib retry_world_def eval_defs)
  have tr3: "truthy (Some ''uuu'')"
    by simp
  note expiring = attempt_before_deadline_check [OF s_wait, where m = job_mutex and w = ?expiring,
      THEN conjunct2, THEN conjunct1, rule_format, OF conjI [OF before2 expiring_third_attempt],
      THEN conjunct1, rule_format, OF tr3]
  have expiring': "obtainLockOptimistically job_mutex ?wait ?expiring
      = Some (Some ''uuu'',
          free_world\<lparr>store := [''lock:job:a'' \<mapsto> (''uuu'', Some 1020)], clock := 20,
                      awaits := 5, drawn := 3\<rparr>,
          [Set ''lock:job:a'' ''u'' 1000, Timer 10, Set ''lock:job:a'' ''uu'' 1000, Timer 10,
           Set ''lock:job:a'' ''uuu'' 1000])"
    using expiring by (simp add: job_key job_timeout concrete_tokens numeral_2_eq_2)
  show ?thesis
    by (intro conjI) (rule free_attempt tr free held_attempt fa late neg first
        held_second_attempt late2 zero' expiring_third_attempt expiring')+
qed

text \<open>
  Claim C6. One attempt draws the next token from \<open>uuidv4\<close> and sends one
  conditional write of it at the key, with the configured timeout as expiry.
  When no live record is there the record is written and the token returned;
  otherwise nothing is written and the result is \<open>null\<close>, not an error. Nothing
  else changes but the time that passes. In the polling loop the tokens written
  are the successive draws, one new token for each iteration, so they differ
  from one another whenever the draws do.
\<close>

theorem attempt_writes_fresh_token_once:
  "obtainLock m w =
     (if redis_get w (getRedisKey m) = None
      then (Some (uuids w (drawn w)),
            await (w\<lparr>drawn := Suc (drawn w),
                     store := (store w)(getRedisKey m \<mapsto>
                                 (uuids w (drawn w), Some (clock w + timeout m)))\<rparr>),
            [Set (getRedisKey m) (uuids w (drawn w)) (timeout m)])
      else (None, await (w\<lparr>drawn := Suc (drawn w)\<rparr>),
            [Set (getRedisKey m) (uuids w (drawn w)) (timeout m)]))
   \<and> (\<forall>r w' tr. obtainLockOptimistically m options w = Some (r, w', tr) \<longrightarrow>
         drawn w < drawn w'
       \<and> attempts tr = map (uuids w) [drawn w ..< drawn w']
       \<and> (inj_on (uuids w) {drawn w ..< drawn w'} \<longrightarrow> distinct (attempts tr)))"
proof -
  have "drawn w < drawn w' \<and> attempts tr = map (uuids w) [drawn w ..< drawn w']
        \<and> (inj_on (uuids w) {drawn w ..< drawn w'} \<longrightarrow> distinct (attempts tr))"
    if r: "obtainLockOptimistically m options w = Some (r, w', tr)" for r w' tr
    using obtainLockOptimistically_result(1,3)[OF r]
    by (simp add: attempts_spin_trace distinct_map)
  then have "\<forall>r w' tr. obtainLockOptimistically m options w = Some (r, w', tr) \<longrightarrow>
         drawn w < drawn w'
       \<and> attempts tr = map (uuids w) [drawn w ..< drawn w']
       \<and> (inj_on (uuids w) {drawn w ..< drawn w'} \<longrightarrow> distinct (attempts tr))"
    by blast
  moreover have "obtainLock m w =
     (if redis_get w (getRedisKey m) = None
      then (Some (uuids w (drawn w)),
            await (w\<lparr>drawn := Suc (drawn w),
                     store := (store w)(getRedisKey m \<mapsto>
                                 (uuids w (drawn w), Some (clock w + timeout m)))\<rparr>),
            [Set (getRedisKey m) (uuids w (drawn w)) (timeout m)])
      else (None, await (w\<lparr>drawn := Suc (drawn w)\<rparr>),
            [Set (getRedisKey m) (uuids w (drawn w)) (timeout m)]))"
    by (simp add: obtainLock_eq Let_def)
  ultimately show ?thesis
    by (rule conjI[rotated])
qed

theorem attempt_writes_fresh_token_once_witness:
  "obtainLockOptimistically job_mutex
     \<lparr>maxWaitTime = 25, maxAttempts = None, timeBetweenAttempts = Some 10\<rparr> held_world
   = Some (None, held_world\<lparr>clock := 30, awaits := 7, drawn := 4\<rparr>,
       [Set ''lock:job:a'' ''u'' 1000, Timer 10, Set ''lock:job:a'' ''uu'' 1000, Timer 10,
        Set ''lock:job:a'' ''uuu'' 1000, Timer 10, Set ''lock:job:a'' ''uuuu'' 1000])
   \<and> inj_on (uuids held_world)
        {drawn held_world ..< drawn (held_world\<lparr>clock := 30, awaits := 7, drawn := 4\<rparr>)}
   \<and> attempts [Set ''lock:job:a'' ''u'' 1000, Timer 10, Set ''lock:job:a'' ''uu'' 1000, Timer 10,
        Set ''lock:job:a'' ''uuu'' 1000, Timer 10, Set ''lock:job:a'' ''uuuu'' 1000]
      = map (uuids held_world)
          [drawn held_world ..< drawn (held_world\<lparr>clock := 30, awaits := 7, drawn := 4\<rparr>)]
   \<and> distinct (attempts [Set ''lock:job:a'' ''u'' 1000, Timer 10, Set ''lock:job:a'' ''uu'' 1000,
        Timer 10, Set ''lock:job:a'' ''uuu'' 1000, Timer 10, Set ''lock:job:a'' ''uuuu'' 1000])"
proof -
  let ?options = "\<lparr>maxWaitTime = 25, maxAttempts = None, timeBetweenAttempts = Some 10\<rparr>"
  have i: "inj_on (uuids held_world)
             {drawn held_world ..< drawn (held_world\<lparr>clock := 30, awaits := 7, drawn := 4\<rparr>)}"
    by (auto simp: inj_on_def held_world_def free_world_def)
  note p = held_poll_25_10 [of None]
  note t = attempt_writes_fresh_token_once [of job_mutex held_world ?options,
      THEN conjunct2, rule_format, OF p]
  from t i p show ?thesis
    by blast
qed

text \<open>
  Claim C7. Without \<open>timeBetweenAttempts\<close> the loop waits
  \<open>max(10, floor(maxWaitTime / 2))\<close> milliseconds after each failed attempt that
  is followed by another one; with \<open>timeBetweenAttempts\<close> it waits exactly that
  value. The trace of a call that returns is attempt, timer, attempt, ..., attempt,
  and every timer in it was set to this delay.
\<close>

theorem delay_between_attempts:
  "obtainLockOptimistically m options w = Some (r, w', tr) \<Longrightarrow>
     (timeBetweenAttempts options = None \<longrightarrow>
        tr = spin_trace (getRedisKey m) (timeout m) (max 10 (maxWaitTime options div 2)) (attempts tr)
      \<and> (\<forall>d. Timer d \<in> set tr \<longrightarrow> d = max 10 (maxWaitTime options div 2)))
   \<and> (\<forall>t. timeBetweenAttempts options = Some t \<longrightarrow>
        tr = spin_trace (getRedisKey m) (timeout m) t (attempts tr)
      \<and> (\<forall>d. Timer d \<in> set tr \<longrightarrow> d = t))"
  using obtainLockOptimistically_result(3)[of m options w r w' tr]
  by (auto simp: attempts_spin_trace dest: Timer_in_spin_trace)

theorem delay_between_attempts_witness:
  "obtainLockOptimistically job_mutex
     \<lparr>maxWaitTime = 30, maxAttempts = None, timeBetweenAttempts = None\<rparr> held_world
   = Some (None, held_world\<lparr>clock := 45, awaits := 7, drawn := 4\<rparr>,
       [Set ''lock:job:a'' ''u'' 1000, Timer 15, Set ''lock:job:a'' ''uu'' 1000, Timer 15,
        Set ''lock:job:a'' ''uuu'' 1000, Timer 15, Set ''lock:job:a'' ''uuuu'' 1000])
   \<and> timeBetweenAttempts \<lparr>maxWaitTime = 30, maxAttempts = None, timeBetweenAttempts = None\<rparr>
       = None
   \<and> Timer 15 \<in> set [Set ''lock:job:a'' ''u'' 1000, Timer 15, Set ''lock:job:a'' ''uu'' 1000,
        Timer 15, Set ''lock:job:a'' ''uuu'' 1000, Timer 15, Set ''lock:job:a'' ''uuuu'' 1000]
   \<and> (15::int) = max 10
        (maxWaitTime \<lparr>maxWaitTime = 30, maxAttempts = None, timeBetweenAttempts = None\<rparr> div 2)
   \<and> obtainLockOptimistically job_mutex
        \<lparr>maxWaitTime = 4, maxAttempts = None, timeBetweenAttempts = None\<rparr> held_world
      = Some (None, held_world\<lparr>clock := 10, awaits := 3, drawn := 2\<rparr>,
          [Set ''lock:job:a'' ''u'' 1000, Timer 10, Set ''lock:job:a'' ''uu'' 1000])
   \<and> timeBetweenAttempts \<lparr>maxWaitTime = 4, maxAttempts = None, timeBetweenAttempts = None\<rparr>
       = None
   \<and> Timer 10 \<in> set [Set ''lock:job:a'' ''u'' 1000, Timer 10, Set ''lock:job:a'' ''uu'' 1000]
   \<and> (10::int) = max 10
        (maxWaitTime \<lparr>maxWaitTime = 4, maxAttempts = None, timeBetweenAttempts = None\<rparr> div 2)
   \<and> obtainLockOptimistically job_mutex
        \<lparr>maxWaitTime = 100, maxAttempts = None, timeBetweenAttempts = Some 10\<rparr>
        (free_world\<lparr>store := [''lock:job:a'' \<mapsto> (''other'', Some 15)]\<rparr>)
      = Some (Some ''uuu'',
          free_world\<lparr>store := [''lock:job:a'' \<mapsto> (''uuu'', Some 1020)], clock := 20,
                      awaits := 5, drawn := 3\<rparr>,
          [Set ''lock:job:a'' ''u'' 1000, Timer 10, Set ''lock:job:a'' ''uu'' 1000, Timer 10,
           Set ''lock:job:a'' ''uuu'' 1000])
   \<and> timeBetweenAttempts
        \<lparr>maxWaitTime = 100, maxAttempts = None, timeBetweenAttempts = Some 10\<rparr> = Some 10
   \<and> [Set ''lock:job:a'' ''u'' 1000, Timer 10, Set ''lock:job:a'' ''uu'' 1000, Timer 10,
        Set ''lock:job:a'' ''uuu'' 1000]
      = spin_trace (getRedisKey job_mutex) (timeout job_mutex) 10
          (attempts [Set ''lock:job:a'' ''u'' 1000, Timer 10, Set ''lock:job:a'' ''uu'' 1000,
             Timer 10, Set ''lock:job:a'' ''uuu'' 1000])"
proof -
  let ?long = "\<lparr>maxWaitTime = 30, maxAttempts = None, timeBetweenAttempts = None\<rparr>"
  let ?short = "\<lparr>maxWaitTime = 4, maxAttempts = None, timeBetweenAttempts = None\<rparr>"
  let ?given = "\<lparr>maxWaitTime = 100, maxAttempts = None, timeBetweenAttempts = Some 10\<rparr>"
  have h1: "timeBetweenAttempts ?long = None" and h2: "timeBetweenAttempts ?short = None"
    and h3: "timeBetweenAttempts ?given = Some 10"
    by simp_all
  have m1: "Timer 15 \<in> set [Set ''lock:job:a'' ''u'' 1000, Timer 15,
      Set ''lock:job:a'' ''uu'' 1000, Timer 15, Set ''lock:job:a'' ''uuu'' 1000, Timer 15,
      Set ''lock:job:a'' ''uuuu'' 1000]"
    and m2: "Timer 10 \<in> set [Set ''lock:job:a'' ''u'' 1000, Timer 10,
      Set ''lock:job:a'' ''uu'' 1000]"
    by simp_all
  note t1 = delay_between_attempts [OF held_poll_30_default, THEN conjunct1, rule_format, OF h1,
      THEN conjunct2, rule_format, OF m1]
  note t2 = delay_between_attempts [OF held_poll_4_default, THEN conjunct1, rule_format, OF h2,
      THEN conjunct2, rule_format, OF m2]
  note t3 = delay_between_attempts [OF expiring_poll, THEN conjunct2, rule_format, OF h3,
      THEN conjunct1]
  show ?thesis
    by (intro conjI) (rule held_poll_30_default h1 m1 t1 held_poll_4_default h2 m2 t2
        expiring_poll h3 t3)+
qed

section \<open>Scoped execution\<close>

lemma withLock_acquired:
  assumes "obtainLock m w = (Some tok, w1, es)" and "tok \<noteq> []" and "run w1 = (outcome, w2)"
  shows "withLock m run w =
           (map_sum Thrown (\<lambda>v. v) outcome, fst (releaseLock m tok w2),
            es @ [Run, Eval (getRedisKey m) tok])"
  using assms by (simp add: withLock_def releaseLock_eq)

lemma withLock_failed:
  assumes "obtainLock m w = (None, w1, es)"
  shows "withLock m run w = (Inl (new_RedisMutexAcquisitionError (name m) (id' m)), w1, es)"
  using assms by (simp add: withLock_def)

lemma withOptimisticLock_acquired:
  assumes "obtainLockOptimistically m options w = Some (Some tok, w1, es)"
    and "run w1 = (outcome, w2)"
  shows "withOptimisticLock m run options w =
           Some (map_sum Thrown (\<lambda>v. v) outcome, fst (releaseLock m tok w2),
                 es @ [Run, Eval (getRedisKey m) tok])"
proof -
  have "tok \<noteq> []"
    using obtainLockOptimistically_result(5)[OF assms(1) refl] by blast
  with assms show ?thesis
    by (simp add: withOptimisticLock_def releaseLock_eq)
qed

lemma withOptimisticLock_failed:
  assumes "obtainLockOptimistically m options w = Some (None, w1, es)"
  shows "withOptimisticLock m run options w =
           Some (Inl (new_RedisMutexAcquisitionError (name m) (id' m)), w1, es)"
  using assms by (simp add: withOptimisticLock_def)

lemma releases_obtainLock: "obtainLock m w = (r, w1, es) \<Longrightarrow> releases es = []"
  using obtainLock_cases(1)[of m w r w1 es] by simp

lemma releases_obtainLockOptimistically:
  "obtainLockOptimistically m options w = Some (r, w1, es) \<Longrightarrow> releases es = []"
  using obtainLockOptimistically_result(3)[of m options w r w1 es]
  by (simp add: releases_spin_trace)

lemma Run_notin_spin_trace: "Run \<notin> set (spin_trace k px d ts)"
  using set_spin_trace[of Run k px d ts] by auto

text \<open>
  Claim C3. In \<open>withLock\<close> and in \<open>withOptimisticLock\<close>, release is called once
  when the acquisition gave a token and not at all when it did not. When the
  work returns a value, that value is the result and the release is the last
  thing done; when the work raises, the release is done all the same and what
  the work raised is what the caller gets. (A token is a string that is not
  empty, as every string of \<open>uuidv4\<close> is; the polling loop returns no other.)
\<close>

theorem release_once_iff_acquired:
  fixes run :: "world \<Rightarrow> ('e + 'a) \<times> world"
  shows
  "(\<forall>tok w1 es. obtainLock m w = (Some tok, w1, es) \<and> tok \<noteq> [] \<longrightarrow>
      releases (snd (snd (withLock m run w))) = [tok]
    \<and> (\<forall>v w2. run w1 = (Inr v, w2) \<longrightarrow>
          withLock m run w =
            (Inr v, fst (releaseLock m tok w2), es @ [Run, Eval (getRedisKey m) tok]))
    \<and> (\<forall>e w2. run w1 = (Inl e, w2) \<longrightarrow>
          withLock m run w =
            (Inl (Thrown e), fst (releaseLock m tok w2), es @ [Run, Eval (getRedisKey m) tok])))
   \<and> (\<forall>w1 es. obtainLock m w = (None, w1, es) \<longrightarrow>
        releases (snd (snd (withLock m run w))) = [])
   \<and> (\<forall>tok w1 es. obtainLockOptimistically m options w = Some (Some tok, w1, es) \<longrightarrow>
        releases (es @ [Run, Eval (getRedisKey m) tok]) = [tok]
      \<and> (\<forall>v w2. run w1 = (Inr v, w2) \<longrightarrow>
            withOptimisticLock m run options w =
              Some (Inr v, fst (releaseLock m tok w2), es @ [Run, Eval (getRedisKey m) tok]))
      \<and> (\<forall>e w2. run w1 = (Inl e, w2) \<longrightarrow>
            withOptimisticLock m run options w =
              Some (Inl (Thrown e), fst (releaseLock m tok w2),
                    es @ [Run, Eval (getRedisKey m) tok])))
   \<and> (\<forall>w1 es. obtainLockOptimistically m options w = Some (None, w1, es) \<longrightarrow>
        releases es = []
      \<and> (\<exists>failure. withOptimisticLock m run options w = Some (Inl failure, w1, es)))"
proof (intro conjI allI impI; (elim conjE)?)
  fix tok w1 es
  assume a: "obtainLock m w = (Some tok, w1, es)" "tok \<noteq> []"
  obtain outcome w2 where r: "run w1 = (outcome, w2)"
    by (cases "run w1")
  show "releases (snd (snd (withLock m run w))) = [tok]"
    using withLock_acquired[where run = run, OF a r] releases_obtainLock[OF a(1)]
    by (simp add: releases_append)
next
  fix tok w1 es v w2
  assume "obtainLock m w = (Some tok, w1, es)" "tok \<noteq> []" "run w1 = (Inr v, w2)"
  then show "withLock m run w =
      (Inr v, fst (releaseLock m tok w2), es @ [Run, Eval (getRedisKey m) tok])"
    by (simp add: withLock_acquired)
next
  fix tok w1 es e w2
  assume "obtainLock m w = (Some tok, w1, es)" "tok \<noteq> []" "run w1 = (Inl e, w2)"
  then show "withLock m run w =
      (Inl (Thrown e), fst (releaseLock m tok w2), es @ [Run, Eval (getRedisKey m) tok])"
    by (simp add: withLock_acquired)
next
  fix w1 es
  assume a: "obtainLock m w = (None, w1, es)"
  show "releases (snd (snd (withLock m run w))) = []"
    using releases_obtainLock[OF a] by (simp add: withLock_failed[OF a])
next
  fix tok w1 es
  assume "obtainLockOptimistically m options w = Some (Some tok, w1, es)"
  then show "releases (es @ [Run, Eval (getRedisKey m) tok]) = [tok]"
    by (simp add: releases_append releases_obtainLockOptimistically)
next
  fix tok w1 es v w2
  assume "obtainLockOptimistically m options w = Some (Some tok, w1, es)" "run w1 = (Inr v, w2)"
  then show "withOptimisticLock m run options w =
      Some (Inr v, fst (releaseLock m tok w2), es @ [Run, Eval (getRedisKey m) tok])"
    by (simp add: withOptimisticLock_acquired)
next
  fix tok w1 es e w2
  assume "obtainLockOptimistically m options w = Some (Some tok, w1, es)" "run w1 = (Inl e, w2)"
  then show "withOptimisticLock m run options w =
      Some (Inl (Thrown e), fst (releaseLock m tok w2), es @ [Run, Eval (getRedisKey m) tok])"
    by (simp add: withOptimisticLock_acquired)
next
  fix w1 es
  assume "obtainLockOptimistically m options w = Some (None, w1, es)"
  then show "releases es = []"
    by (rule releases_obtainLockOptimistically)
next
  fix w1 es
  assume "obtainLockOptimistically m options w = Some (None, w1, es)"
  then show "\<exists>failure. withOptimisticLock m run options w = Some (Inl failure, w1, es)"
    by (simp add: withOptimisticLock_failed)
qed

theorem release_once_iff_acquired_witness:
  "obtainLock job_mutex free_world =
     (Some ''u'',
      free_world\<lparr>store := [''lock:job:a'' \<mapsto> (''u'', Some 1000)], awaits := 1, drawn := 1\<rparr>,
      [Set ''lock:job:a'' ''u'' 1000])
   \<and> ''u'' \<noteq> []
   \<and> releases (snd (snd (withLock job_mutex work_ok free_world))) = [''u'']
   \<and> withLock job_mutex work_ok free_world =
       (Inr 7, free_world\<lparr>clock := 5, awaits := 2, drawn := 1\<rparr>,
        [Set ''lock:job:a'' ''u'' 1000, Run, Eval ''lock:job:a'' ''u''])
   \<and> withLock job_mutex work_raises free_world =
       (Inl (Thrown ''boom''), free_world\<lparr>clock := 5, awaits := 2, drawn := 1\<rparr>,
        [Set ''lock:job:a'' ''u'' 1000, Run, Eval ''lock:job:a'' ''u''])
   \<and> obtainLock job_mutex held_world =
       (None, held_world\<lparr>awaits := 1, drawn := 1\<rparr>, [Set ''lock:job:a'' ''u'' 1000])
   \<and> releases (snd (snd (withLock job_mutex work_ok held_world))) = []
   \<and> obtainLockOptimistically job_mutex
        \<lparr>maxWaitTime = 100, maxAttempts = None, timeBetweenAttempts = Some 10\<rparr>
        (free_world\<lparr>store := [''lock:job:a'' \<mapsto> (''other'', Some 15)]\<rparr>)
      = Some (Some ''uuu'',
          free_world\<lparr>store := [''lock:job:a'' \<mapsto> (''uuu'', Some 1020)], clock := 20,
                      awaits := 5, drawn := 3\<rparr>,
          [Set ''lock:job:a'' ''u'' 1000, Timer 10, Set ''lock:job:a'' ''uu'' 1000, Timer 10,
           Set ''lock:job:a'' ''uuu'' 1000])
   \<and> withOptimisticLock job_mutex work_ok
        \<lparr>maxWaitTime = 100, maxAttempts = None, timeBetweenAttempts = Some 10\<rparr>
        (free_world\<lparr>store := [''lock:job:a'' \<mapsto> (''other'', Some 15)]\<rparr>)
      = Some (Inr 7, free_world\<lparr>clock := 25, awaits := 6, drawn := 3\<rparr>,
          [Set ''lock:job:a'' ''u'' 1000, Timer 10, Set ''lock:job:a'' ''uu'' 1000, Timer 10,
           Set ''lock:job:a'' ''uuu'' 1000, Run, Eval ''lock:job:a'' ''uuu''])
   \<and> withOptimisticLock job_mutex work_raises
        \<lparr>maxWaitTime = 100, maxAttempts = None, timeBetweenAttempts = Some 10\<rparr>
        (free_world\<lparr>store := [''lock:job:a'' \<mapsto> (''other'', Some 15)]\<rparr>)
      = Some (Inl (Thrown ''boom''), free_world\<lparr>clock := 25, awaits := 6, drawn := 3\<rparr>,
          [Set ''lock:job:a'' ''u'' 1000, Timer 10, Set ''lock:job:a'' ''uu'' 1000, Timer 10,
           Set ''lock:job:a'' ''uuu'' 1000, Run, Eval ''lock:job:a'' ''uuu''])
   \<and> obtainLockOptimistically job_mutex
        \<lparr>maxWaitTime = 4, maxAttempts = None, timeBetweenAttempts = None\<rparr> held_world
      = Some (None, held_world\<lparr>clock := 10, awaits := 3, drawn := 2\<rparr>,
          [Set ''lock:job:a'' ''u'' 1000, Timer 10, Set ''lock:job:a'' ''uu'' 1000])
   \<and> releases [Set ''lock:job:a'' ''u'' 1000, Timer 10, Set ''lock:job:a'' ''uu'' 1000] = []"
proof -
  let ?wait = "\<lparr>maxWaitTime = 100, maxAttempts = None, timeBetweenAttempts = Some 10\<rparr>"
  let ?short = "\<lparr>maxWaitTime = 4, maxAttempts = None, timeBetweenAttempts = None\<rparr>"
  let ?expiring = "free_world\<lparr>store := [''lock:job:a'' \<mapsto> (''other'', Some 15)]\<rparr>"
  have a: "obtainLock job_mutex free_world =
     (Some ''u'',
      free_world\<lparr>store := [''lock:job:a'' \<mapsto> (''u'', Some 1000)], awaits := 1, drawn := 1\<rparr>,
      [Set ''lock:job:a'' ''u'' 1000]) \<and> ''u'' \<noteq> []"
    using free_attempt by simp
  note free = release_once_iff_acquired
    [where m = job_mutex and w = free_world and run = work_ok and options = ?wait,
      THEN conjunct1, rule_format, OF a, THEN conjunct1]
  note held = release_once_iff_acquired
    [where m = job_mutex and w = held_world and run = work_ok and options = ?short,
      THEN conjunct2]
  note held_once = held [THEN conjunct1, rule_format, OF held_attempt]
  note held_poll = held [THEN conjunct2, THEN conjunct2, rule_format, OF held_poll_4_default,
      THEN conjunct1]
  note expiring = release_once_iff_acquired
    [where m = job_mutex and w = ?expiring and run = work_raises and options = ?wait,
      THEN conjunct2, THEN conjunct2, THEN conjunct1, rule_format, OF expiring_poll,
      THEN conjunct1]
  from free held_once held_poll expiring show ?thesis
    using free_attempt held_attempt expiring_poll held_poll_4_default
      free_withLock_ok free_withLock_raises
      expiring_withOptimisticLock_ok expiring_withOptimisticLock_raises
    by simp
qed

text \<open>
  Claim C4. When no lock is obtained, \<open>withLock\<close> and \<open>withOptimisticLock\<close> raise
  a \<open>RedisMutexAcquisitionError\<close> that carries the name and the id of the mutex,
  and the work is not run. A key that holds a live record is such a case.
\<close>

theorem acquisition_failure_is_raised:
  fixes run :: "world \<Rightarrow> ('e + 'a) \<times> world"
  shows
  "(\<forall>w1 es. obtainLock m w = (None, w1, es) \<longrightarrow>
      withLock m run w =
        (Inl (RedisMutexAcquisitionError
                (''Failed to acquire redis mutex with name '' @ [CHR 0x27] @ name m @ [CHR 0x27]
                   @ '' (id: '' @ id' m @ '')'')
                (name m) (id' m)), w1, es)
    \<and> Run \<notin> set es)
   \<and> (\<forall>w1 es. obtainLockOptimistically m options w = Some (None, w1, es) \<longrightarrow>
        withOptimisticLock m run options w =
          Some (Inl (RedisMutexAcquisitionError
                  (''Failed to acquire redis mutex with name '' @ [CHR 0x27] @ name m @ [CHR 0x27]
                     @ '' (id: '' @ id' m @ '')'')
                  (name m) (id' m)), w1, es)
      \<and> Run \<notin> set es)
   \<and> (redis_get w (getRedisKey m) \<noteq> None \<longrightarrow> fst (obtainLock m w) = None)"
proof (intro conjI allI impI)
  fix w1 es
  assume a: "obtainLock m w = (None, w1, es)"
  show "withLock m run w =
        (Inl (RedisMutexAcquisitionError
                (''Failed to acquire redis mutex with name '' @ [CHR 0x27] @ name m @ [CHR 0x27]
                   @ '' (id: '' @ id' m @ '')'')
                (name m) (id' m)), w1, es)"
    by (simp add: withLock_failed[OF a] new_RedisMutexAcquisitionError_def)
  show "Run \<notin> set es"
    by (simp add: obtainLock_cases(1)[OF a])
next
  fix w1 es
  assume a: "obtainLockOptimistically m options w = Some (None, w1, es)"
  show "withOptimisticLock m run options w =
          Some (Inl (RedisMutexAcquisitionError
                  (''Failed to acquire redis mutex with name '' @ [CHR 0x27] @ name m @ [CHR 0x27]
                     @ '' (id: '' @ id' m @ '')'')
                  (name m) (id' m)), w1, es)"
    by (simp add: withOptimisticLock_failed[OF a] new_RedisMutexAcquisitionError_def)
  show "Run \<notin> set es"
    using obtainLockOptimistically_result(3)[OF a] by (simp add: Run_notin_spin_trace)
next
  assume "redis_get w (getRedisKey m) \<noteq> None"
  then show "fst (obtainLock m w) = None"
    by (simp add: obtainLock_eq Let_def)
qed

theorem acquisition_failure_is_raised_witness:
  "obtainLock job_mutex held_world =
     (None, held_world\<lparr>awaits := 1, drawn := 1\<rparr>, [Set ''lock:job:a'' ''u'' 1000])
   \<and> withLock job_mutex work_ok held_world =
       (Inl (RedisMutexAcquisitionError
               (''Failed to acquire redis mutex with name '' @ [CHR 0x27] @ ''job'' @ [CHR 0x27]
                  @ '' (id: a)'') ''job'' ''a''),
        held_world\<lparr>awaits := 1, drawn := 1\<rparr>, [Set ''lock:job:a'' ''u'' 1000])
   \<and> obtainLockOptimistically job_mutex
        \<lparr>maxWaitTime = 4, maxAttempts = None, timeBetweenAttempts = None\<rparr> held_world
      = Some (None, held_world\<lparr>clock := 10, awaits := 3, drawn := 2\<rparr>,
          [Set ''lock:job:a'' ''u'' 1000, Timer 10, Set ''lock:job:a'' ''uu'' 1000])
   \<and> withOptimisticLock job_mutex work_ok
        \<lparr>maxWaitTime = 4, maxAttempts = None, timeBetweenAttempts = None\<rparr> held_world
      = Some (Inl (RedisMutexAcquisitionError
                (''Failed to acquire redis mutex with name '' @ [CHR 0x27] @ ''job'' @ [CHR 0x27]
                   @ '' (id: a)'') ''job'' ''a''),
          held_world\<lparr>clock := 10, awaits := 3, drawn := 2\<rparr>,
          [Set ''lock:job:a'' ''u'' 1000, Timer 10, Set ''lock:job:a'' ''uu'' 1000])
   \<and> redis_get held_world (getRedisKey job_mutex) \<noteq> None
   \<and> fst (obtainLock job_mutex held_world) = None"
proof -
  let ?short = "\<lparr>maxWaitTime = 4, maxAttempts = None, timeBetweenAttempts = None\<rparr>"
  note t = acquisition_failure_is_raised
    [where m = job_mutex and w = held_world and run = work_ok and options = ?short]
  have g: "redis_get held_world (getRedisKey job_mutex) \<noteq> None"
    by (simp add: eval_defs)
  have n: "name job_mutex = ''job''" "id' job_mutex = ''a''"
    by (simp_all add: job_mutex_def)
  note t1 = t [THEN conjunct1, rule_format, OF held_attempt, THEN conjunct1, unfolded n]
  note t2 = t [THEN conjunct2, THEN conjunct1, rule_format, OF held_poll_4_default,
      THEN conjunct1, unfolded n]
  note t3 = t [THEN conjunct2, THEN conjunct2, rule_format, OF g]
  from t1 t2 t3 g held_attempt held_poll_4_default show ?thesis
    by simp
qed

text \<open>
  Claim C10. In a call of \<open>withLock\<close> or \<open>withOptimisticLock\<close> that obtained the
  lock, the token given to release is the token that the acquisition of this call
  returned: the one written by its last attempt and stored in the lock record at
  that moment. Release draws no token of its own.
\<close>

theorem release_gets_the_acquired_token:
  fixes run :: "world \<Rightarrow> ('e + 'a) \<times> world"
  shows
  "(\<forall>tok w1 es. obtainLock m w = (Some tok, w1, es) \<and> tok \<noteq> [] \<longrightarrow>
      (\<exists>result w3. withLock m run w = (result, w3, es @ [Run, Eval (getRedisKey m) tok]))
    \<and> attempts es = [tok]
    \<and> (\<exists>x. store w1 (getRedisKey m) = Some (tok, x)))
   \<and> (\<forall>tok w1 es. obtainLockOptimistically m options w = Some (Some tok, w1, es) \<longrightarrow>
      (\<exists>result w3. withOptimisticLock m run options w
                     = Some (result, w3, es @ [Run, Eval (getRedisKey m) tok]))
    \<and> last (attempts es) = tok
    \<and> (\<exists>x. store w1 (getRedisKey m) = Some (tok, x)))
   \<and> drawn (fst (releaseLock m t w)) = drawn w"
proof (intro conjI allI impI; (elim conjE)?)
  fix tok w1 es
  assume a: "obtainLock m w = (Some tok, w1, es)" "tok \<noteq> []"
  obtain outcome w2 where r: "run w1 = (outcome, w2)"
    by (cases "run w1")
  show "\<exists>result w3. withLock m run w = (result, w3, es @ [Run, Eval (getRedisKey m) tok])"
    using withLock_acquired[where run = run, OF a r] by blast
  show "attempts es = [tok]"
    using obtainLock_cases(1,4)[OF a(1)] by simp
  show "\<exists>x. store w1 (getRedisKey m) = Some (tok, x)"
    using obtainLock_cases(4,5)[OF a(1)] by simp
next
  fix tok w1 es
  assume a: "obtainLockOptimistically m options w = Some (Some tok, w1, es)"
  note f = obtainLockOptimistically_result[OF a]
  obtain outcome w2 where r: "run w1 = (outcome, w2)"
    by (cases "run w1")
  show "\<exists>result w3. withOptimisticLock m run options w
                     = Some (result, w3, es @ [Run, Eval (getRedisKey m) tok])"
    using withOptimisticLock_acquired[where run = run, OF a r] by blast
  have "last (map (uuids w) [drawn w ..< drawn w1]) = uuids w (drawn w1 - 1)"
    using f(1) by (simp add: last_map last_upt)
  then show "last (attempts es) = tok"
    using f(3) f(5)[OF refl] by (simp add: attempts_spin_trace)
  show "\<exists>x. store w1 (getRedisKey m) = Some (tok, x)"
    using f(5)[OF refl] by blast
next
  show "drawn (fst (releaseLock m t w)) = drawn w"
    by (simp add: releaseLock_eq await_def)
qed

theorem release_gets_the_acquired_token_witness:
  "obtainLock job_mutex free_world =
     (Some ''u'',
      free_world\<lparr>store := [''lock:job:a'' \<mapsto> (''u'', Some 1000)], awaits := 1, drawn := 1\<rparr>,
      [Set ''lock:job:a'' ''u'' 1000])
   \<and> ''u'' \<noteq> []
   \<and> withLock job_mutex work_ok free_world =
       (Inr 7, free_world\<lparr>clock := 5, awaits := 2, drawn := 1\<rparr>,
        [Set ''lock:job:a'' ''u'' 1000, Run, Eval ''lock:job:a'' ''u''])
   \<and> attempts [Set ''lock:job:a'' ''u'' 1000] = [''u'']
   \<and> obtainLockOptimistically job_mutex
        \<lparr>maxWaitTime = 100, maxAttempts = None, timeBetweenAttempts = Some 10\<rparr>
        (free_world\<lparr>store := [''lock:job:a'' \<mapsto> (''other'', Some 15)]\<rparr>)
      = Some (Some ''uuu'',
          free_world\<lparr>store := [''lock:job:a'' \<mapsto> (''uuu'', Some 1020)], clock := 20,
                      awaits := 5, drawn := 3\<rparr>,
          [Set ''lock:job:a'' ''u'' 1000, Timer 10, Set ''lock:job:a'' ''uu'' 1000, Timer 10,
           Set ''lock:job:a'' ''uuu'' 1000])
   \<and> withOptimisticLock job_mutex work_ok
        \<lparr>maxWaitTime = 100, maxAttempts = None, timeBetweenAttempts = Some 10\<rparr>
        (free_world\<lparr>store := [''lock:job:a'' \<mapsto> (''other'', Some 15)]\<rparr>)
      = Some (Inr 7, free_world\<lparr>clock := 25, awaits := 6, drawn := 3\<rparr>,
          [Set ''lock:job:a'' ''u'' 1000, Timer 10, Set ''lock:job:a'' ''uu'' 1000, Timer 10,
           Set ''lock:job:a'' ''uuu'' 1000, Run, Eval ''lock:job:a'' ''uuu''])
   \<and> last (attempts [Set ''lock:job:a'' ''u'' 1000, Timer 10, Set ''lock:job:a'' ''uu'' 1000,
        Timer 10, Set ''lock:job:a'' ''uuu'' 1000]) = ''uuu''"
proof -
  let ?wait = "\<lparr>maxWaitTime = 100, maxAttempts = None, timeBetweenAttempts = Some 10\<rparr>"
  let ?expiring = "free_world\<lparr>store := [''lock:job:a'' \<mapsto> (''other'', Some 15)]\<rparr>"
  have a: "obtainLock job_mutex free_world =
     (Some ''u'',
      free_world\<lparr>store := [''lock:job:a'' \<mapsto> (''u'', Some 1000)], awaits := 1, drawn := 1\<rparr>,
      [Set ''lock:job:a'' ''u'' 1000]) \<and> ''u'' \<noteq> []"
    using free_attempt by simp
  note t1 = release_gets_the_acquired_token
    [where m = job_mutex and w = free_world and run = work_ok and options = ?wait,
      THEN conjunct1, rule_format, OF a, THEN conjunct2, THEN conjunct1]
  note t2 = release_gets_the_acquired_token
    [where m = job_mutex and w = ?expiring and run = work_ok and options = ?wait,
      THEN conjunct2, THEN conjunct1, rule_format, OF expiring_poll, THEN conjunct2,
      THEN conjunct1]
  from t1 t2 a expiring_poll free_withLock_ok expiring_withOptimisticLock_ok show ?thesis
    by simp
qed

end
